theory Spec2Isabelle
  imports Main "HOL-Library.Word"
begin

unbundle bit_operations_syntax

section \<open>The camera client of \<^verbatim>\<open>dataset_creation/laptop_client.py\<close>\<close>

text \<open>
  The client reads length-prefixed frames from a stream socket on a receiver thread, keeps
  the latest decoded frame in one slot, and lets the operator save images remotely (a text
  command on a second socket) or locally (a JPEG file). Every effect of the Python code is
  explicit here: the sockets and the clock are inputs, the console, the lock operations and
  the file writes are events appended to a trace, and an exception is a value.
\<close>

subsection \<open>Bytes, exceptions and the stream socket\<close>

type_synonym byte = "8 word"
type_synonym bytes = "byte list"

text \<open>The exceptions that the modelled operations raise; all are subclasses of \<^verbatim>\<open>Exception\<close>.\<close>

datatype py_exception =
    ConnectionError string
  | StructError
  | IndexError
  | OtherException string

text \<open>
  The stream socket is the list of segments that the transport still delivers, in order.
  \<^verbatim>\<open>recv(n)\<close> returns at most \<open>n\<close> bytes of the first segment and leaves the
  rest of it for the next read. When nothing is left the peer has closed the connection and
  \<^verbatim>\<open>recv\<close> returns the empty byte string; an empty segment is such a zero-byte read too.
\<close>

type_synonym socket = "bytes list"

fun recv :: "nat \<Rightarrow> socket \<Rightarrow> bytes \<times> socket" where
  "recv n [] = ([], [])"
| "recv n (c # cs) = (take n c, if length c \<le> n then cs else drop n c # cs)"

text \<open>
  Lines 60--65: the loop that accumulates the four bytes of the length prefix.
  \<^verbatim>\<open>
  size_data = b""
  while len(size_data) < 4:
      chunk = self.stream_socket.recv(4 - len(size_data))
      if not chunk:
          raise ConnectionError("Connection lost")
      size_data += chunk
  \<close>
\<close>

function recv_size :: "bytes \<Rightarrow> socket \<Rightarrow> (py_exception + bytes) \<times> socket" where
  "recv_size size_data sock =
     (if length size_data < 4 then
        (case recv (4 - length size_data) sock of
           (chunk, sock') \<Rightarrow>
             if chunk = [] then (Inl (ConnectionError ''Connection lost''), sock')
             else recv_size (size_data @ chunk) sock')
      else (Inr size_data, sock))"
  by pat_completeness auto
termination
  by (relation "measure (\<lambda>(size_data, sock). 4 - length size_data)")
    (auto simp: neq_Nil_conv)

text \<open>
  Line 67: \<^verbatim>\<open>struct.unpack("!L", size_data)[0]\<close>, an unsigned 32-bit integer in network
  (big-endian) byte order; \<^verbatim>\<open>struct.error\<close> unless the buffer has exactly four bytes.
\<close>

definition unpack_be32 :: "bytes \<Rightarrow> py_exception + nat" where
  "unpack_be32 bs =
     (case bs of
        [b0, b1, b2, b3] \<Rightarrow>
          Inr (((unat b0 * 256 + unat b1) * 256 + unat b2) * 256 + unat b3)
      | _ \<Rightarrow> Inl StructError)"

text \<open>
  Lines 70--75: the loop that accumulates the payload.
  \<^verbatim>\<open>
  frame_data = b""
  while len(frame_data) < frame_size:
      chunk = self.stream_socket.recv(min(4096, frame_size - len(frame_data)))
      if not chunk:
          raise ConnectionError("Connection lost")
      frame_data += chunk
  \<close>
\<close>

function recv_payload :: "nat \<Rightarrow> bytes \<Rightarrow> socket \<Rightarrow> (py_exception + bytes) \<times> socket" where
  "recv_payload frame_size frame_data sock =
     (if length frame_data < frame_size then
        (case recv (min 4096 (frame_size - length frame_data)) sock of
           (chunk, sock') \<Rightarrow>
             if chunk = [] then (Inl (ConnectionError ''Connection lost''), sock')
             else recv_payload frame_size (frame_data @ chunk) sock')
      else (Inr frame_data, sock))"
  by pat_completeness auto
termination
  by (relation "measure (\<lambda>(frame_size, frame_data, sock). frame_size - length frame_data)")
    (auto simp: neq_Nil_conv)

text \<open>Lines 60--75 together: the bytes of one frame, read off the socket.\<close>

definition read_frame :: "socket \<Rightarrow> (py_exception + bytes) \<times> socket" where
  "read_frame sock =
     (case recv_size [] sock of
        (Inl e, sock1) \<Rightarrow> (Inl e, sock1)
      | (Inr size_data, sock1) \<Rightarrow>
          (case unpack_be32 size_data of
             Inl e \<Rightarrow> (Inl e, sock1)
           | Inr frame_size \<Rightarrow> recv_payload frame_size [] sock1))"

subsection \<open>Console output, lock operations and the client state\<close>

text \<open>What the client prints, one constructor for each \<^verbatim>\<open>print\<close> of the source.\<close>

datatype message =
    FrameReceivingError py_exception \<comment> \<open>\<^verbatim>\<open>Frame receiving error: {e}\<close>\<close>
  | ImageSavedOnGO2 string \<comment> \<open>\<^verbatim>\<open>Image saved on GO2: {filepath}\<close>\<close>
  | FailedToSaveOnGO2 string \<comment> \<open>\<^verbatim>\<open>Failed to save on GO2: {response}\<close>\<close>
  | ErrorSavingRemote py_exception \<comment> \<open>\<^verbatim>\<open>Error saving remote image: {e}\<close>\<close>
  | NoFrameAvailable \<comment> \<open>\<^verbatim>\<open>No frame available to save\<close>\<close>
  | ImageSavedLocally string \<comment> \<open>\<^verbatim>\<open>Image saved locally: {filepath}\<close>\<close>
  | FailedToSaveImage string \<comment> \<open>\<^verbatim>\<open>Failed to save image: {filepath}\<close>\<close>
  | ErrorSavingLocal py_exception \<comment> \<open>\<^verbatim>\<open>Error saving local image: {e}\<close>\<close>
  | TotalImages nat \<comment> \<open>\<^verbatim>\<open>Total images in dataset: {self.image_counter}\<close>\<close>
  | Instructions \<comment> \<open>the text of \<^verbatim>\<open>display_instructions\<close>\<close>

text \<open>
  The observable effects, in program order: taking and releasing \<^verbatim>\<open>frame_lock\<close>, copying
  the current frame, reading the clock, sending a command, showing a frame with the counter
  overlay, attempting a file write, and printing.
\<close>

datatype event =
    Acquire
  | Release
  | CopyFrame
  | Now
  | SendCommand string
  | Imshow nat
  | ImWrite string
  | Print message

text \<open>
  The fields of \<^verbatim>\<open>CameraClient\<close> that the modelled methods use. The counter starts at 0
  and is only ever incremented, so it is a natural number. \<open>stream_socket\<close> holds what the
  connected stream will deliver, \<open>files\<close> the images written below the working directory.
\<close>

record 'f client =
  running :: bool
  current_frame :: "'f option"
  image_counter :: nat
  local_save_dir :: string
  stream_socket :: socket
  files :: "string \<rightharpoonup> 'f"
  events :: "event list"

text \<open>Lines 17--29, for a client connected to a stream that delivers \<open>segments\<close>.\<close>

definition init_client :: "socket \<Rightarrow> 'f client" where
  "init_client segments =
     \<lparr>running = False, current_frame = None, image_counter = 0,
      local_save_dir = ''ball_dataset_local'', stream_socket = segments,
      files = Map.empty, events = []\<rparr>"

definition emit :: "event \<Rightarrow> 'f client \<Rightarrow> 'f client" where
  "emit e c = c\<lparr>events := events c @ [e]\<rparr>"

subsection \<open>The receiver loop\<close>

text \<open>
  Lines 58--83, one iteration. \<^verbatim>\<open>pickle.loads\<close> and \<^verbatim>\<open>cv2.imdecode\<close> are library
  functions and parameters here; each may raise, and \<^verbatim>\<open>imdecode\<close> returns \<^verbatim>\<open>None\<close>
  for data it cannot decode. The result is the exception that left the loop body, if any.
\<close>

definition receive_one ::
  "(bytes \<Rightarrow> py_exception + 'o) \<Rightarrow> ('o \<Rightarrow> py_exception + 'f option) \<Rightarrow> 'f client
   \<Rightarrow> py_exception option \<times> 'f client" where
  "receive_one pickle_loads imdecode c =
     (case read_frame (stream_socket c) of
        (Inl e, sock) \<Rightarrow> (Some e, c\<lparr>stream_socket := sock\<rparr>)
      | (Inr frame_data, sock) \<Rightarrow>
          (case pickle_loads frame_data of
             Inl e \<Rightarrow> (Some e, c\<lparr>stream_socket := sock\<rparr>)
           | Inr frame_encoded \<Rightarrow>
               (case imdecode frame_encoded of
                  Inl e \<Rightarrow> (Some e, c\<lparr>stream_socket := sock\<rparr>)
                | Inr frame \<Rightarrow>
                    (None, emit Release
                       ((emit Acquire (c\<lparr>stream_socket := sock\<rparr>))\<lparr>current_frame := frame\<rparr>)))))"

text \<open>Line 58: \<^verbatim>\<open>while self.running\<close>, left by the first exception.\<close>

function receive_loop ::
  "(bytes \<Rightarrow> py_exception + 'o) \<Rightarrow> ('o \<Rightarrow> py_exception + 'f option) \<Rightarrow> 'f client
   \<Rightarrow> py_exception option \<times> 'f client" where
  "receive_loop pickle_loads imdecode c =
     (if running c then
        (case receive_one pickle_loads imdecode c of
           (Some e, c') \<Rightarrow> (Some e, c')
         | (None, c') \<Rightarrow> receive_loop pickle_loads imdecode c')
      else (None, c))"
  by pat_completeness auto

text \<open>
  Lines 55--87: the handler \<^verbatim>\<open>except Exception as e\<close> prints the error if the client is
  still running, and the method returns.
\<close>

definition receive_frames ::
  "(bytes \<Rightarrow> py_exception + 'o) \<Rightarrow> ('o \<Rightarrow> py_exception + 'f option) \<Rightarrow> 'f client
   \<Rightarrow> 'f client" where
  "receive_frames pickle_loads imdecode c =
     (case receive_loop pickle_loads imdecode c of
        (Some e, c') \<Rightarrow> if running c' then emit (Print (FrameReceivingError e)) c' else c'
      | (None, c') \<Rightarrow> c')"

subsection \<open>The remote save command\<close>

text \<open>\<^verbatim>\<open>str.startswith\<close>, \<^verbatim>\<open>str.split(sep, 1)\<close> for a one-character separator, and \<^verbatim>\<open>xs[1]\<close>.\<close>

definition startswith :: "string \<Rightarrow> string \<Rightarrow> bool" where
  "startswith s p = (take (length p) s = p)"

definition split1 :: "char \<Rightarrow> string \<Rightarrow> string list" where
  "split1 sep s =
     (case dropWhile (\<lambda>c. c \<noteq> sep) s of
        [] \<Rightarrow> [s]
      | _ # after \<Rightarrow> [takeWhile (\<lambda>c. c \<noteq> sep) s, after])"

definition index1 :: "'a list \<Rightarrow> py_exception + 'a" where
  "index1 xs = (case xs of _ # x # _ \<Rightarrow> Inr x | _ \<Rightarrow> Inl IndexError)"

text \<open>Lines 92--95; \<^verbatim>\<open>if filename\<close> is false for \<^verbatim>\<open>None\<close> and for the empty string.\<close>

definition save_command :: "string option \<Rightarrow> string" where
  "save_command filename =
     (case filename of
        None \<Rightarrow> ''SAVE''
      | Some f \<Rightarrow> if f \<noteq> [] then ''SAVE:'' @ f else ''SAVE'')"

text \<open>
  Lines 92--106, the body of the \<^verbatim>\<open>try\<close>. \<open>reply\<close> is what the command socket does for
  \<^verbatim>\<open>send\<close> followed by \<^verbatim>\<open>recv(1024).decode('utf-8')\<close>: an exception, or the response
  text.
\<close>

definition save_image_remote_try ::
  "string option \<Rightarrow> py_exception + string \<Rightarrow> 'f client \<Rightarrow> (py_exception + bool) \<times> 'f client" where
  "save_image_remote_try filename reply c =
     (let c1 = emit (SendCommand (save_command filename)) c in
      case reply of
        Inl e \<Rightarrow> (Inl e, c1)
      | Inr response \<Rightarrow>
          if startswith response ''SAVED:'' then
            (case index1 (split1 CHR '':'' response) of
               Inl e \<Rightarrow> (Inl e, c1)
             | Inr filepath \<Rightarrow> (Inr True, emit (Print (ImageSavedOnGO2 filepath)) c1))
          else (Inr False, emit (Print (FailedToSaveOnGO2 response)) c1))"

text \<open>Lines 89--110: the \<^verbatim>\<open>try\<close> with its handler \<^verbatim>\<open>except Exception as e\<close>.\<close>

definition save_image_remote ::
  "string option \<Rightarrow> py_exception + string \<Rightarrow> 'f client \<Rightarrow> bool \<times> 'f client" where
  "save_image_remote filename reply c =
     (case save_image_remote_try filename reply c of
        (Inl e, c') \<Rightarrow> (False, emit (Print (ErrorSavingRemote e)) c')
      | (Inr ok, c') \<Rightarrow> (ok, c'))"

subsection \<open>File names\<close>

text \<open>The value of \<^verbatim>\<open>datetime.now()\<close>.\<close>

record datetime =
  year :: nat
  month :: nat
  day :: nat
  hour :: nat
  minute :: nat
  second :: nat
  microsecond :: nat

text \<open>Decimal digits of a natural number, and zero padding on the left to a minimal width.\<close>

fun dec :: "nat \<Rightarrow> string" where
  "dec n = (if n < 10 then [''0123456789'' ! n] else dec (n div 10) @ [''0123456789'' ! (n mod 10)])"

declare dec.simps [simp del]

definition zfill :: "nat \<Rightarrow> string \<Rightarrow> string" where
  "zfill w s = replicate (w - length s) CHR ''0'' @ s"

text \<open>
  \<^verbatim>\<open>strftime("%Y%m%d_%H%M%S_%f")\<close>: the year with century (a \<^verbatim>\<open>datetime\<close> has a year
  from 1 to 9999), two digits for each of month, day, hour, minute and second, and for
  \<^verbatim>\<open>%f\<close> the microsecond as six digits.
\<close>

definition strftime :: "datetime \<Rightarrow> string" where
  "strftime t =
     zfill 4 (dec (year t)) @ zfill 2 (dec (month t)) @ zfill 2 (dec (day t)) @ ''_'' @
     zfill 2 (dec (hour t)) @ zfill 2 (dec (minute t)) @ zfill 2 (dec (second t)) @ ''_'' @
     zfill 6 (dec (microsecond t))"

text \<open>Lines 124--125 (and 210--211): the slice \<^verbatim>\<open>[:-3]\<close> and the f-string with \<^verbatim>\<open>:04d\<close>.\<close>

definition timestamp :: "datetime \<Rightarrow> string" where
  "timestamp t = (let s = strftime t in take (length s - 3) s)"

definition gen_filename :: "nat \<Rightarrow> datetime \<Rightarrow> string" where
  "gen_filename n t = ''ball_dataset_'' @ zfill 4 (dec n) @ ''_'' @ timestamp t @ ''.jpg''"

text \<open>\<^verbatim>\<open>os.path.join\<close> of two components, as \<^verbatim>\<open>posixpath\<close> defines it.\<close>

definition os_path_join :: "string \<Rightarrow> string \<Rightarrow> string" where
  "os_path_join a b =
     (if startswith b ''/'' then b
      else if a = [] \<or> last a = CHR ''/'' then a @ b
      else a @ ''/'' @ b)"

subsection \<open>The local save\<close>

text \<open>
  \<^verbatim>\<open>cv2.imwrite(filepath, frame, ...)\<close>: \<open>outcome\<close> is what the file system lets the call
  do; it raises, returns \<^verbatim>\<open>False\<close>, or writes the file and returns \<^verbatim>\<open>True\<close>.
\<close>

definition imwrite ::
  "py_exception + bool \<Rightarrow> string \<Rightarrow> 'f \<Rightarrow> 'f client \<Rightarrow> (py_exception + bool) \<times> 'f client" where
  "imwrite outcome filepath frame c =
     (let c1 = emit (ImWrite filepath) c in
      case outcome of
        Inr True \<Rightarrow> (Inr True, c1\<lparr>files := (files c1)(filepath \<mapsto> frame)\<rparr>)
      | _ \<Rightarrow> (outcome, c1))"

text \<open>Lines 115--135, the body of the \<^verbatim>\<open>try\<close>; \<open>now\<close> is the clock, read on line 124.\<close>

definition save_image_local_try ::
  "string option \<Rightarrow> datetime \<Rightarrow> py_exception + bool \<Rightarrow> 'f client
   \<Rightarrow> (py_exception + bool) \<times> 'f client" where
  "save_image_local_try filename now outcome c =
     (let c1 = emit Acquire c in
      case current_frame c1 of
        None \<Rightarrow> (Inr False, emit Release (emit (Print NoFrameAvailable) c1))
      | Some frame \<Rightarrow>
          (let c2 = emit Release (emit CopyFrame c1);
               (filename', c3) =
                 (case filename of
                    None \<Rightarrow>
                      (let c3 = emit Now (c2\<lparr>image_counter := image_counter c2 + 1\<rparr>)
                       in (gen_filename (image_counter c3) now, c3))
                  | Some f \<Rightarrow> (f, c2));
               filepath = os_path_join (local_save_dir c3) filename'
           in case imwrite outcome filepath frame c3 of
                (Inl e, c4) \<Rightarrow> (Inl e, c4)
              | (Inr success, c4) \<Rightarrow>
                  if success then (Inr True, emit (Print (ImageSavedLocally filepath)) c4)
                  else (Inr False, emit (Print (FailedToSaveImage filepath)) c4)))"

text \<open>Lines 112--139: the \<^verbatim>\<open>try\<close> with its handler \<^verbatim>\<open>except Exception as e\<close>.\<close>

definition save_image_local ::
  "string option \<Rightarrow> datetime \<Rightarrow> py_exception + bool \<Rightarrow> 'f client \<Rightarrow> bool \<times> 'f client" where
  "save_image_local filename now outcome c =
     (case save_image_local_try filename now outcome c of
        (Inl e, c') \<Rightarrow> (False, emit (Print (ErrorSavingLocal e)) c')
      | (Inr ok, c') \<Rightarrow> (ok, c'))"

subsection \<open>The display and input loop\<close>

text \<open>What the surroundings do during one key action: the command socket, the clock, the disk.\<close>

record env =
  env_reply :: "py_exception + string"
  env_now :: datetime
  env_write :: "py_exception + bool"

text \<open>Lines 183--195: showing the current frame with the counter overlay.\<close>

definition display :: "'f client \<Rightarrow> 'f client" where
  "display c =
     (let c1 = emit Acquire c;
          c2 = (case current_frame c1 of
                  None \<Rightarrow> c1
                | Some frame \<Rightarrow> emit (Imshow (image_counter c1)) (emit CopyFrame c1))
      in emit Release c2)"

text \<open>
  Lines 198--219: \<open>waitKey\<close> is the value of \<^verbatim>\<open>cv2.waitKey(1)\<close>. The first component of
  the result is \<open>False\<close> when the loop is left by \<^verbatim>\<open>break\<close>.
\<close>

definition handle_key :: "int \<Rightarrow> env \<Rightarrow> 'f client \<Rightarrow> bool \<times> 'f client" where
  "handle_key waitKey e c =
     (let key = waitKey AND 0xFF in
      if key = 113 \<or> key = 27 then (False, c)
      else if key = 115 \<or> key = 32 then
        (case save_image_remote None (env_reply e) c of
           (ok, c1) \<Rightarrow> (True, if ok then c1\<lparr>image_counter := image_counter c1 + 1\<rparr> else c1))
      else if key = 108 then
        (case save_image_local None (env_now e) (env_write e) c of
           (ok, c1) \<Rightarrow> (True, if ok then emit (Print (TotalImages (image_counter c1))) c1 else c1))
      else if key = 98 then
        (let c1 = emit Now (c\<lparr>image_counter := image_counter c + 1\<rparr>);
             filename = gen_filename (image_counter c1) (env_now e);
             (remote_success, c2) = save_image_remote (Some filename) (env_reply e) c1;
             (local_success, c3) = save_image_local (Some filename) (env_now e) (env_write e) c2
         in (True, if remote_success \<or> local_success
                   then c3\<lparr>image_counter := image_counter c3 + 1\<rparr> else c3))
      else if key = 104 then (True, emit (Print Instructions) c)
      else (True, c))"

text \<open>
  Lines 182--219, for the key presses and surroundings given, one pair for each iteration;
  the run ends with \<^verbatim>\<open>break\<close>, with the running flag down, or when the pairs are used up.
\<close>

fun main_loop :: "(int \<times> env) list \<Rightarrow> 'f client \<Rightarrow> 'f client" where
  "main_loop [] c = c"
| "main_loop ((waitKey, e) # rest) c =
     (if running c then
        (case handle_key waitKey e (display c) of
           (False, c') \<Rightarrow> c'
         | (True, c') \<Rightarrow> main_loop rest c')
      else c)"

subsection \<open>Reading one frame\<close>

lemma recv_conserve: "recv n sock = (chunk, sock') \<Longrightarrow> chunk @ concat sock' = concat sock"
  by (cases sock) (auto split: if_splits)

lemma recv_length: "recv n sock = (chunk, sock') \<Longrightarrow> length chunk \<le> n"
  by (cases sock) auto

lemma recv_nonempty:
  "[] \<notin> set sock \<Longrightarrow> sock \<noteq> [] \<Longrightarrow> 0 < n \<Longrightarrow> recv n sock = (chunk, sock') \<Longrightarrow> chunk \<noteq> []"
  by (cases sock) auto

lemma recv_segments:
  "[] \<notin> set sock \<Longrightarrow> recv n sock = (chunk, sock') \<Longrightarrow> [] \<notin> set sock'"
  by (cases sock) (auto split: if_splits)

lemma recv_size_conserve:
  "recv_size acc sock = (Inr d, sock') \<Longrightarrow> d @ concat sock' = acc @ concat sock"
proof (induction acc sock rule: recv_size.induct)
  case (1 size_data sock)
  show ?case
  proof (cases "length size_data < 4")
    case False
    with "1.prems" show ?thesis by simp
  next
    case True
    obtain chunk s1 where r: "recv (4 - length size_data) sock = (chunk, s1)"
      by (cases "recv (4 - length size_data) sock")
    with True "1.prems" have ne: "chunk \<noteq> []" and rec: "recv_size (size_data @ chunk) s1 = (Inr d, sock')"
      by (auto split: if_splits)
    from "1.IH" [OF True r [symmetric] ne rec] recv_conserve [OF r]
    show ?thesis by simp
  qed
qed

lemma recv_size_length:
  "recv_size acc sock = (Inr d, sock') \<Longrightarrow> length acc \<le> 4 \<Longrightarrow> length d = 4"
proof (induction acc sock rule: recv_size.induct)
  case (1 size_data sock)
  show ?case
  proof (cases "length size_data < 4")
    case False
    with "1.prems" show ?thesis by simp
  next
    case True
    obtain chunk s1 where r: "recv (4 - length size_data) sock = (chunk, s1)"
      by (cases "recv (4 - length size_data) sock")
    with True "1.prems" have ne: "chunk \<noteq> []" and rec: "recv_size (size_data @ chunk) s1 = (Inr d, sock')"
      by (auto split: if_splits)
    from recv_length [OF r] True have "length (size_data @ chunk) \<le> 4" by simp
    from "1.IH" [OF True r [symmetric] ne rec this]
    show ?thesis .
  qed
qed

lemma recv_size_error:
  "recv_size acc sock = (Inl e, sock') \<Longrightarrow> e = ConnectionError ''Connection lost''"
proof (induction acc sock rule: recv_size.induct)
  case (1 size_data sock)
  show ?case
  proof (cases "length size_data < 4")
    case False
    with "1.prems" show ?thesis by simp
  next
    case True
    obtain chunk s1 where r: "recv (4 - length size_data) sock = (chunk, s1)"
      by (cases "recv (4 - length size_data) sock")
    show ?thesis
    proof (cases "chunk = []")
      case True
      with \<open>length size_data < 4\<close> r "1.prems" show ?thesis by simp
    next
      case False
      with \<open>length size_data < 4\<close> r "1.prems"
      have "recv_size (size_data @ chunk) s1 = (Inl e, sock')" by simp
      from "1.IH" [OF True r [symmetric] False this] show ?thesis .
    qed
  qed
qed

lemma recv_size_ok:
  "[] \<notin> set sock \<Longrightarrow> 4 \<le> length acc + length (concat sock) \<Longrightarrow>
   \<exists>d sock'. recv_size acc sock = (Inr d, sock') \<and> [] \<notin> set sock'"
proof (induction acc sock rule: recv_size.induct)
  case (1 size_data sock)
  show ?case
  proof (cases "length size_data < 4")
    case False
    with "1.prems" show ?thesis by simp
  next
    case True
    obtain chunk s1 where r: "recv (4 - length size_data) sock = (chunk, s1)"
      by (cases "recv (4 - length size_data) sock")
    from True "1.prems" have "sock \<noteq> []" by auto
    with recv_nonempty [OF "1.prems"(1) _ _ r] True have ne: "chunk \<noteq> []" by simp
    have seg: "[] \<notin> set s1" by (rule recv_segments [OF "1.prems"(1) r])
    from recv_conserve [OF r] have "length chunk + length (concat s1) = length (concat sock)"
      by (metis length_append)
    with "1.prems" have "4 \<le> length (size_data @ chunk) + length (concat s1)" by simp
    from "1.IH" [OF True r [symmetric] ne seg this] True r ne show ?thesis by simp
  qed
qed

lemma recv_size_short:
  "length acc + length (concat sock) < 4 \<Longrightarrow>
   fst (recv_size acc sock) = Inl (ConnectionError ''Connection lost'')"
proof (induction acc sock rule: recv_size.induct)
  case (1 size_data sock)
  from "1.prems" have lt: "length size_data < 4" by simp
  obtain chunk s1 where r: "recv (4 - length size_data) sock = (chunk, s1)"
    by (cases "recv (4 - length size_data) sock")
  show ?case
  proof (cases "chunk = []")
    case True
    with lt r show ?thesis by simp
  next
    case False
    from recv_conserve [OF r] have "length chunk + length (concat s1) = length (concat sock)"
      by (metis length_append)
    with "1.prems" have "length (size_data @ chunk) + length (concat s1) < 4" by simp
    from "1.IH" [OF lt r [symmetric] False this] lt r False show ?thesis by simp
  qed
qed

lemma recv_payload_conserve:
  "recv_payload n acc sock = (Inr d, sock') \<Longrightarrow> d @ concat sock' = acc @ concat sock"
proof (induction n acc sock rule: recv_payload.induct)
  case (1 frame_size frame_data sock)
  let ?n = "min 4096 (frame_size - length frame_data)"
  show ?case
  proof (cases "length frame_data < frame_size")
    case False
    with "1.prems" show ?thesis by simp
  next
    case True
    obtain chunk s1 where r: "recv ?n sock = (chunk, s1)"
      by (cases "recv ?n sock")
    with True "1.prems" have ne: "chunk \<noteq> []"
      and rec: "recv_payload frame_size (frame_data @ chunk) s1 = (Inr d, sock')"
      by (auto split: if_splits)
    from "1.IH" [OF True r [symmetric] ne rec] recv_conserve [OF r]
    show ?thesis by simp
  qed
qed

lemma recv_payload_length:
  "recv_payload n acc sock = (Inr d, sock') \<Longrightarrow> length acc \<le> n \<Longrightarrow> length d = n"
proof (induction n acc sock rule: recv_payload.induct)
  case (1 frame_size frame_data sock)
  let ?n = "min 4096 (frame_size - length frame_data)"
  show ?case
  proof (cases "length frame_data < frame_size")
    case False
    with "1.prems" show ?thesis by simp
  next
    case True
    obtain chunk s1 where r: "recv ?n sock = (chunk, s1)"
      by (cases "recv ?n sock")
    with True "1.prems" have ne: "chunk \<noteq> []"
      and rec: "recv_payload frame_size (frame_data @ chunk) s1 = (Inr d, sock')"
      by (auto split: if_splits)
    from recv_length [OF r] True have "length (frame_data @ chunk) \<le> frame_size" by auto
    from "1.IH" [OF True r [symmetric] ne rec this]
    show ?thesis .
  qed
qed

lemma recv_payload_error:
  "recv_payload n acc sock = (Inl e, sock') \<Longrightarrow> e = ConnectionError ''Connection lost''"
proof (induction n acc sock rule: recv_payload.induct)
  case (1 frame_size frame_data sock)
  let ?n = "min 4096 (frame_size - length frame_data)"
  show ?case
  proof (cases "length frame_data < frame_size")
    case False
    with "1.prems" show ?thesis by simp
  next
    case True
    obtain chunk s1 where r: "recv ?n sock = (chunk, s1)"
      by (cases "recv ?n sock")
    show ?thesis
    proof (cases "chunk = []")
      case True
      with \<open>length frame_data < frame_size\<close> r "1.prems" show ?thesis by simp
    next
      case False
      with \<open>length frame_data < frame_size\<close> r "1.prems"
      have "recv_payload frame_size (frame_data @ chunk) s1 = (Inl e, sock')" by simp
      from "1.IH" [OF True r [symmetric] False this] show ?thesis .
    qed
  qed
qed

lemma recv_payload_ok:
  "[] \<notin> set sock \<Longrightarrow> n \<le> length acc + length (concat sock) \<Longrightarrow>
   \<exists>d sock'. recv_payload n acc sock = (Inr d, sock') \<and> [] \<notin> set sock'"
proof (induction n acc sock rule: recv_payload.induct)
  case (1 frame_size frame_data sock)
  let ?n = "min 4096 (frame_size - length frame_data)"
  show ?case
  proof (cases "length frame_data < frame_size")
    case False
    with "1.prems" show ?thesis by simp
  next
    case True
    obtain chunk s1 where r: "recv ?n sock = (chunk, s1)"
      by (cases "recv ?n sock")
    from True "1.prems" have "sock \<noteq> []" by auto
    with recv_nonempty [OF "1.prems"(1) _ _ r] True have ne: "chunk \<noteq> []" by simp
    have seg: "[] \<notin> set s1" by (rule recv_segments [OF "1.prems"(1) r])
    from recv_conserve [OF r] have "length chunk + length (concat s1) = length (concat sock)"
      by (metis length_append)
    with "1.prems" have "frame_size \<le> length (frame_data @ chunk) + length (concat s1)" by simp
    from "1.IH" [OF True r [symmetric] ne seg this] True r ne show ?thesis by simp
  qed
qed

lemma recv_payload_short:
  "length acc + length (concat sock) < n \<Longrightarrow>
   fst (recv_payload n acc sock) = Inl (ConnectionError ''Connection lost'')"
proof (induction n acc sock rule: recv_payload.induct)
  case (1 frame_size frame_data sock)
  let ?n = "min 4096 (frame_size - length frame_data)"
  from "1.prems" have lt: "length frame_data < frame_size" by simp
  obtain chunk s1 where r: "recv ?n sock = (chunk, s1)"
    by (cases "recv ?n sock")
  show ?case
  proof (cases "chunk = []")
    case True
    with lt r show ?thesis by simp
  next
    case False
    from recv_conserve [OF r] have "length chunk + length (concat s1) = length (concat sock)"
      by (metis length_append)
    with "1.prems" have "length (frame_data @ chunk) + length (concat s1) < frame_size" by simp
    from "1.IH" [OF lt r [symmetric] False this] lt r False show ?thesis by simp
  qed
qed

lemma unpack_be32_length: "unpack_be32 bs = Inr n \<Longrightarrow> length bs = 4"
  by (auto simp: unpack_be32_def split: list.splits)

lemma read_frame_bytes:
  assumes hd4: "unpack_be32 hdr = Inr L"
    and len: "length payload = L"
    and str: "concat sock = hdr @ payload @ rest"
    and seg: "[] \<notin> set sock"
  shows "\<exists>sock1 sock2.
           recv_size [] sock = (Inr hdr, sock1) \<and> concat sock1 = payload @ rest \<and>
           recv_payload L [] sock1 = (Inr payload, sock2) \<and> concat sock2 = rest \<and>
           read_frame sock = (Inr payload, sock2) \<and>
           length (concat sock) = 4 + L + length (concat sock2)"
proof -
  have p4: "length hdr = 4" by (rule unpack_be32_length [OF hd4])
  with str have "4 \<le> length ([]::bytes) + length (concat sock)" by simp
  from recv_size_ok [OF seg this]
  obtain d sock1 where r1: "recv_size [] sock = (Inr d, sock1)" and seg1: "[] \<notin> set sock1"
    by blast
  from recv_size_length [OF r1] have d4: "length d = 4" by simp
  from recv_size_conserve [OF r1] str have "d @ concat sock1 = hdr @ payload @ rest" by simp
  with d4 p4 have d: "d = hdr" and c1: "concat sock1 = payload @ rest" by auto
  from c1 len have "L \<le> length ([]::bytes) + length (concat sock1)" by simp
  from recv_payload_ok [OF seg1 this]
  obtain d' sock2 where r2: "recv_payload L [] sock1 = (Inr d', sock2)" by blast
  from recv_payload_length [OF r2] have dL: "length d' = L" by simp
  from recv_payload_conserve [OF r2] c1 have "d' @ concat sock2 = payload @ rest" by simp
  with dL len have d': "d' = payload" and c2: "concat sock2 = rest" by auto
  have "read_frame sock = (Inr payload, sock2)"
    using r1 r2 hd4 by (simp add: read_frame_def d d')
  moreover have "length (concat sock) = 4 + L + length (concat sock2)"
    using str p4 len c2 by simp
  ultimately show ?thesis using r1 r2 c1 c2 d d' by blast
qed

subsection \<open>The receiver loop terminates\<close>

lemma read_frame_shrinks:
  assumes "read_frame sock = (Inr d, sock')"
  shows "length (concat sock') < length (concat sock)"
proof -
  obtain r1 s1 where r1: "recv_size [] sock = (r1, s1)" by (cases "recv_size [] sock")
  with assms obtain size_data where sd: "r1 = Inr size_data"
    by (cases r1) (auto simp: read_frame_def)
  from recv_size_length [OF r1 [unfolded sd]] have l4: "length size_data = 4" by simp
  from recv_size_conserve [OF r1 [unfolded sd]] have c1: "size_data @ concat s1 = concat sock" by simp
  from assms r1 sd obtain n where n: "unpack_be32 size_data = Inr n"
    and r2: "recv_payload n [] s1 = (Inr d, sock')"
    by (auto simp: read_frame_def split: sum.splits)
  from recv_payload_conserve [OF r2] have "d @ concat sock' = concat s1" by simp
  then have "length (concat sock') \<le> length (concat s1)"
    by (metis length_append le_add2)
  moreover from c1 l4 have "length (concat sock) = 4 + length (concat s1)"
    by (metis length_append)
  ultimately show ?thesis by simp
qed

lemma receive_one_shrinks:
  assumes "receive_one pl imd c = (None, c')"
  shows "length (concat (stream_socket c')) < length (concat (stream_socket c))"
proof -
  obtain r s where rf: "read_frame (stream_socket c) = (r, s)"
    by (cases "read_frame (stream_socket c)")
  with assms obtain d where d: "r = Inr d" and s: "stream_socket c' = s"
    by (cases r) (auto simp: receive_one_def emit_def split: sum.splits)
  from read_frame_shrinks [OF rf [unfolded d]] s show ?thesis by simp
qed

termination receive_loop
  by (relation "measure (\<lambda>(pl, imd, c). length (concat (stream_socket c)))")
    (auto dest: receive_one_shrinks [OF sym])

lemma receive_one_running: "running (snd (receive_one pl imd c)) = running c"
  by (simp add: receive_one_def emit_def split: prod.splits sum.splits)

lemma receive_loop_running: "running (snd (receive_loop pl imd c)) = running c"
proof (induction pl imd c rule: receive_loop.induct)
  case (1 pl imd c)
  show ?case
  proof (cases "running c")
    case False
    then show ?thesis by simp
  next
    case True
    obtain r c1 where r: "receive_one pl imd c = (r, c1)" by (cases "receive_one pl imd c")
    from receive_one_running [of pl imd c] r have run1: "running c1 = running c" by simp
    show ?thesis
    proof (cases r)
      case None
      from "1.IH" [OF True r [symmetric, unfolded None] refl] True r None run1
      show ?thesis by simp
    next
      case (Some e)
      with True r run1 show ?thesis by simp
    qed
  qed
qed

lemma read_frame_truncated:
  assumes "length (concat sock) < 4 \<or>
           (concat sock = hdr @ partial \<and> unpack_be32 hdr = Inr L \<and> length partial < L)"
  shows "fst (read_frame sock) = Inl (ConnectionError ''Connection lost'')"
proof -
  obtain r1 s1 where r1: "recv_size [] sock = (r1, s1)" by (cases "recv_size [] sock")
  show ?thesis
  proof (cases r1)
    case (Inl e)
    with recv_size_error [of "[]" sock e s1] r1 show ?thesis
      by (simp add: read_frame_def)
  next
    case (Inr size_data)
    from recv_size_length [OF r1 [unfolded Inr]] have l4: "length size_data = 4" by simp
    from recv_size_conserve [OF r1 [unfolded Inr]]
    have c1: "size_data @ concat s1 = concat sock" by simp
    then have "length (concat sock) = 4 + length (concat s1)"
      using l4 by (metis length_append)
    with assms have str: "concat sock = hdr @ partial" and hd4: "unpack_be32 hdr = Inr L"
      and short: "length partial < L" by auto
    from unpack_be32_length [OF hd4] l4 c1 str
    have "size_data = hdr" and "concat s1 = partial" by auto
    with short have "length ([]::bytes) + length (concat s1) < L" by simp
    from recv_payload_short [OF this] r1 Inr hd4 \<open>size_data = hdr\<close>
    show ?thesis by (simp add: read_frame_def)
  qed
qed

lemma receive_frames_running: "running (receive_frames pl imd c) = running c"
  using receive_loop_running [of pl imd c]
  by (cases "receive_loop pl imd c") (auto simp: receive_frames_def emit_def split: option.splits)

subsection \<open>One frame, however the transport cuts it\<close>

text \<open>
  Claim C2. A frame is a four-byte header declaring the length \<open>L\<close>, followed by \<open>L\<close> bytes
  of payload. However the transport cuts the stream into non-empty segments, the receiver
  takes exactly the four header bytes in the first loop and exactly the \<open>L\<close> payload bytes in
  the second, so \<open>4 + L\<close> bytes are consumed and everything after the frame (\<open>rest\<close>) is still
  on the socket. Only then does the iteration of the receiver loop deserialize: what
  \<^verbatim>\<open>pickle.loads\<close> is applied to is the payload, and whether it or the decoder raises or the
  frame is published, the socket is left holding \<open>rest\<close>.
\<close>

theorem read_frame_exact:
  assumes hd4: "unpack_be32 hdr = Inr L"
    and len: "length payload = L"
    and str: "concat sock = hdr @ payload @ rest"
    and seg: "[] \<notin> set sock"
  shows "\<exists>sock1 sock2.
           recv_size [] sock = (Inr hdr, sock1) \<and> concat sock1 = payload @ rest \<and>
           recv_payload L [] sock1 = (Inr payload, sock2) \<and> concat sock2 = rest \<and>
           read_frame sock = (Inr payload, sock2) \<and>
           length (concat sock) = 4 + L + length (concat sock2) \<and>
           receive_one pl imd (c\<lparr>stream_socket := sock\<rparr>) =
             (case pl payload of
                Inl e \<Rightarrow> (Some e, c\<lparr>stream_socket := sock2\<rparr>)
              | Inr frame_encoded \<Rightarrow>
                  (case imd frame_encoded of
                     Inl e \<Rightarrow> (Some e, c\<lparr>stream_socket := sock2\<rparr>)
                   | Inr frame \<Rightarrow>
                       (None, c\<lparr>current_frame := frame, stream_socket := sock2,
                                events := events c @ [Acquire, Release]\<rparr>))) \<and>
           (running c \<longrightarrow>
            receive_loop pl imd (c\<lparr>stream_socket := sock\<rparr>) =
              (case pl payload of
                 Inl e \<Rightarrow> (Some e, c\<lparr>stream_socket := sock2\<rparr>)
               | Inr frame_encoded \<Rightarrow>
                   (case imd frame_encoded of
                      Inl e \<Rightarrow> (Some e, c\<lparr>stream_socket := sock2\<rparr>)
                    | Inr frame \<Rightarrow>
                        receive_loop pl imd
                          (c\<lparr>current_frame := frame, stream_socket := sock2,
                             events := events c @ [Acquire, Release]\<rparr>))))"
proof -
  from read_frame_bytes [OF hd4 len str seg]
  obtain sock1 sock2 where r1: "recv_size [] sock = (Inr hdr, sock1)"
    and c1: "concat sock1 = payload @ rest"
    and r2: "recv_payload L [] sock1 = (Inr payload, sock2)"
    and c2: "concat sock2 = rest"
    and rf: "read_frame sock = (Inr payload, sock2)"
    and n: "length (concat sock) = 4 + L + length (concat sock2)"
    by blast
  have one: "receive_one pl imd (c\<lparr>stream_socket := sock\<rparr>) =
             (case pl payload of
                Inl e \<Rightarrow> (Some e, c\<lparr>stream_socket := sock2\<rparr>)
              | Inr frame_encoded \<Rightarrow>
                  (case imd frame_encoded of
                     Inl e \<Rightarrow> (Some e, c\<lparr>stream_socket := sock2\<rparr>)
                   | Inr frame \<Rightarrow>
                       (None, c\<lparr>current_frame := frame, stream_socket := sock2,
                                events := events c @ [Acquire, Release]\<rparr>)))"
    by (simp add: receive_one_def rf emit_def split: sum.splits)
  have loop: "running c \<longrightarrow>
            receive_loop pl imd (c\<lparr>stream_socket := sock\<rparr>) =
              (case pl payload of
                 Inl e \<Rightarrow> (Some e, c\<lparr>stream_socket := sock2\<rparr>)
               | Inr frame_encoded \<Rightarrow>
                   (case imd frame_encoded of
                      Inl e \<Rightarrow> (Some e, c\<lparr>stream_socket := sock2\<rparr>)
                    | Inr frame \<Rightarrow>
                        receive_loop pl imd
                          (c\<lparr>current_frame := frame, stream_socket := sock2,
                             events := events c @ [Acquire, Release]\<rparr>)))"
  proof
    assume run: "running c"
    have "receive_loop pl imd (c\<lparr>stream_socket := sock\<rparr>) =
        (case receive_one pl imd (c\<lparr>stream_socket := sock\<rparr>) of
           (Some e, c') \<Rightarrow> (Some e, c')
         | (None, c') \<Rightarrow> receive_loop pl imd c')"
      using run by (subst receive_loop.simps) simp
    then show "receive_loop pl imd (c\<lparr>stream_socket := sock\<rparr>) =
              (case pl payload of
                 Inl e \<Rightarrow> (Some e, c\<lparr>stream_socket := sock2\<rparr>)
               | Inr frame_encoded \<Rightarrow>
                   (case imd frame_encoded of
                      Inl e \<Rightarrow> (Some e, c\<lparr>stream_socket := sock2\<rparr>)
                    | Inr frame \<Rightarrow>
                        receive_loop pl imd
                          (c\<lparr>current_frame := frame, stream_socket := sock2,
                             events := events c @ [Acquire, Release]\<rparr>)))"
      by (simp only: one) (simp split: sum.splits)
  qed
  from r1 c1 r2 c2 rf n one loop show ?thesis by blast
qed

theorem read_frame_exact_witness:
  "unpack_be32 [0, 0, 0, 3] = Inr 3 \<and> length [1, 2, 3 :: byte] = 3 \<and>
   [] \<notin> set [[0], [0, 0, 3, 1], [2, 3, 9 :: byte]] \<and>
   (\<exists>sock1 sock2.
      recv_size [] [[0], [0, 0, 3, 1], [2, 3, 9]] = (Inr [0, 0, 0, 3], sock1) \<and>
      concat sock1 = [1, 2, 3, 9] \<and>
      recv_payload 3 [] sock1 = (Inr [1, 2, 3], sock2) \<and> concat sock2 = [9] \<and>
      read_frame [[0], [0, 0, 3, 1], [2, 3, 9]] = (Inr [1, 2, 3], sock2) \<and>
      length (concat [[0], [0, 0, 3, 1], [2, 3, 9 :: byte]]) = 4 + 3 + length (concat sock2) \<and>
      receive_one (\<lambda>d. Inr d) (\<lambda>d. Inr (Some (length d)))
        ((init_client [] :: nat client)\<lparr>stream_socket := [[0], [0, 0, 3, 1], [2, 3, 9]]\<rparr>) =
        (None, (init_client [])\<lparr>current_frame := Some 3, stream_socket := sock2,
                 events := [Acquire, Release]\<rparr>))"
  using read_frame_exact [where hdr = "[0, 0, 0, 3]" and L = 3 and payload = "[1, 2, 3]"
      and sock = "[[0], [0, 0, 3, 1], [2, 3, 9]]" and rest = "[9]"
      and pl = "\<lambda>d. Inr d" and imd = "\<lambda>d. Inr (Some (length d))"
      and c = "init_client [] :: nat client"]
  by (simp add: unpack_be32_def init_client_def)

subsection \<open>Losing the connection\<close>

text \<open>
  Claim C3. \<^verbatim>\<open>receive_frames\<close>, which terminates on every stream, never changes the
  running flag. When the stream closes before four header bytes have arrived, or after a
  header that declares \<open>L\<close> payload bytes but before all of them have arrived, reading the frame
  raises \<^verbatim>\<open>ConnectionError("Connection lost")\<close>; the handler prints it and the method
  returns, with nothing else changed. After a frame that was received and published the loop
  goes on with the next one, so this holds for a frame cut short anywhere in the stream.
\<close>
theorem receive_frames_connection_lost:
  "running (receive_frames pl imd c) = running c \<and>
   (running c \<and>
    (length (concat (stream_socket c)) < 4 \<or>
     (concat (stream_socket c) = hdr @ partial \<and> unpack_be32 hdr = Inr L \<and>
      length partial < L)) \<longrightarrow>
    fst (read_frame (stream_socket c)) = Inl (ConnectionError ''Connection lost'') \<and>
    receive_frames pl imd c =
      c\<lparr>stream_socket := snd (read_frame (stream_socket c)),
        events := events c @
          [Print (FrameReceivingError (ConnectionError ''Connection lost''))]\<rparr>) \<and>
   (running c \<and> receive_one pl imd c = (None, c') \<longrightarrow>
    receive_frames pl imd c = receive_frames pl imd c')"
proof (intro conjI impI)
  show "running (receive_frames pl imd c) = running c"
    by (rule receive_frames_running)
next
  assume a: "running c \<and> receive_one pl imd c = (None, c')"
  then show "receive_frames pl imd c = receive_frames pl imd c'"
    by (simp add: receive_frames_def)
next
  let ?e = "ConnectionError ''Connection lost''"
  assume a: "running c \<and>
    (length (concat (stream_socket c)) < 4 \<or>
     (concat (stream_socket c) = hdr @ partial \<and> unpack_be32 hdr = Inr L \<and>
      length partial < L))"
  then have run: "running c" and
    cut: "length (concat (stream_socket c)) < 4 \<or>
     (concat (stream_socket c) = hdr @ partial \<and> unpack_be32 hdr = Inr L \<and>
      length partial < L)"
    by simp_all
  show rf: "fst (read_frame (stream_socket c)) = Inl ?e"
    by (rule read_frame_truncated [OF cut])
  then have one: "receive_one pl imd c =
      (Some ?e, c\<lparr>stream_socket := snd (read_frame (stream_socket c))\<rparr>)"
    by (cases "read_frame (stream_socket c)") (simp add: receive_one_def)
  with run have "receive_loop pl imd c =
      (Some ?e, c\<lparr>stream_socket := snd (read_frame (stream_socket c))\<rparr>)"
    by simp
  with run show "receive_frames pl imd c =
      c\<lparr>stream_socket := snd (read_frame (stream_socket c)),
        events := events c @ [Print (FrameReceivingError ?e)]\<rparr>"
    by (simp add: receive_frames_def emit_def)
qed

theorem receive_frames_connection_lost_witness:
  "running ((init_client [[0, 0, 3, 232], replicate 500 0] :: unit client)\<lparr>running := True\<rparr>) \<and>
   unpack_be32 [0, 0, 3, 232] = Inr 1000 \<and> length (replicate 500 (0 :: byte)) < 1000 \<and>
   events (receive_frames (\<lambda>d. Inr d) (\<lambda>d. Inr (Some ()))
     ((init_client [[0, 0, 3, 232], replicate 500 0])\<lparr>running := True\<rparr>)) =
     [Print (FrameReceivingError (ConnectionError ''Connection lost''))] \<and>
   running (receive_frames (\<lambda>d. Inr d) (\<lambda>d. Inr (Some ()))
     ((init_client [[0, 0, 3, 232], replicate 500 0])\<lparr>running := True\<rparr>))"
  using receive_frames_connection_lost
    [where c = "(init_client [[0, 0, 3, 232], replicate 500 0])\<lparr>running := True\<rparr>"
       and hdr = "[0, 0, 3, 232]" and partial = "replicate 500 0" and L = 1000
       and pl = "\<lambda>d. Inr d" and imd = "\<lambda>d. Inr (Some ())"]
  by (simp add: init_client_def unpack_be32_def)

subsection \<open>The response to a remote save\<close>

lemma startswith_SAVED:
  assumes "startswith response ''SAVED:''"
  shows "response = ''SAVED:'' @ drop 6 response"
proof -
  have "length ''SAVED:'' = 6" by simp
  with assms have "take 6 response = ''SAVED:''" by (simp only: startswith_def)
  with append_take_drop_id [of 6 response] show ?thesis by simp
qed

lemma split1_SAVED:
  assumes "startswith response ''SAVED:''"
  shows "split1 CHR '':'' response = [''SAVED'', drop 6 response]"
proof -
  from startswith_SAVED [OF assms] have "response = ''SAVED:'' @ drop 6 response" .
  then obtain rest where "response = ''SAVED:'' @ rest" "drop 6 response = rest"
    by (metis)
  then show ?thesis by (simp add: split1_def)
qed

lemma save_image_remote_response:
  "save_image_remote filename (Inr response) c =
     (if startswith response ''SAVED:''
      then (True, emit (Print (ImageSavedOnGO2 (drop 6 response)))
                    (emit (SendCommand (save_command filename)) c))
      else (False, emit (Print (FailedToSaveOnGO2 response))
                     (emit (SendCommand (save_command filename)) c)))"
  by (simp add: save_image_remote_def save_image_remote_try_def split1_SAVED index1_def)

lemma save_image_remote_exception:
  "save_image_remote filename (Inl e) c =
     (False, emit (Print (ErrorSavingRemote e)) (emit (SendCommand (save_command filename)) c))"
  by (simp add: save_image_remote_def save_image_remote_try_def)

text \<open>
  Claim C4. For every response text: if it starts with \<^verbatim>\<open>SAVED:\<close> the call returns
  \<open>True\<close> and the path printed to the operator is everything after the first colon, which
  is the response without its first six characters; any other response makes the call return
  \<open>False\<close> and the whole response is printed.
\<close>
theorem save_image_remote_parses_response:
  "save_image_remote filename (Inr response) c =
     (if startswith response ''SAVED:''
      then (True, emit (Print (ImageSavedOnGO2 (drop 6 response)))
                    (emit (SendCommand (save_command filename)) c))
      else (False, emit (Print (FailedToSaveOnGO2 response))
                     (emit (SendCommand (save_command filename)) c))) \<and>
   (startswith response ''SAVED:'' \<longrightarrow>
      split1 CHR '':'' response = [''SAVED'', drop 6 response] \<and>
      response = ''SAVED:'' @ drop 6 response)"
  using startswith_SAVED [of response]
  by (simp add: save_image_remote_response split1_SAVED)

theorem save_image_remote_parses_response_witness:
  "startswith ''SAVED:/data/img001.jpg'' ''SAVED:'' \<and>
   save_image_remote None (Inr ''SAVED:/data/img001.jpg'') (init_client [] :: unit client) =
     (True, emit (Print (ImageSavedOnGO2 ''/data/img001.jpg''))
              (emit (SendCommand ''SAVE'') (init_client []))) \<and>
   \<not> startswith ''ERROR:disk full'' ''SAVED:'' \<and>
   save_image_remote None (Inr ''ERROR:disk full'') (init_client [] :: unit client) =
     (False, emit (Print (FailedToSaveOnGO2 ''ERROR:disk full''))
               (emit (SendCommand ''SAVE'') (init_client [])))"
  using save_image_remote_parses_response
      [of None "''SAVED:/data/img001.jpg''" "init_client [] :: unit client"]
    save_image_remote_parses_response
      [of None "''ERROR:disk full''" "init_client [] :: unit client"]
  by (simp add: startswith_def save_command_def)

subsection \<open>What a local save does\<close>

lemma save_image_local_no_frame:
  "current_frame c = None \<Longrightarrow>
   save_image_local filename now w c =
     (False, c\<lparr>events := events c @ [Acquire, Print NoFrameAvailable, Release]\<rparr>)"
  by (simp add: save_image_local_def save_image_local_try_def emit_def)

lemma save_image_local_explicit:
  "current_frame c = Some fr \<Longrightarrow>
   save_image_local (Some f) now w c =
     (w = Inr True,
      c\<lparr>files := (if w = Inr True then (files c)(os_path_join (local_save_dir c) f \<mapsto> fr)
                  else files c),
        events := events c @
          [Acquire, CopyFrame, Release, ImWrite (os_path_join (local_save_dir c) f),
           Print (case w of
                    Inl e \<Rightarrow> ErrorSavingLocal e
                  | Inr ok \<Rightarrow> if ok then ImageSavedLocally (os_path_join (local_save_dir c) f)
                             else FailedToSaveImage (os_path_join (local_save_dir c) f))]\<rparr>)"
  by (cases w)
    (auto simp: save_image_local_def save_image_local_try_def imwrite_def emit_def Let_def)

lemma save_image_local_auto:
  "current_frame c = Some fr \<Longrightarrow>
   save_image_local None now w c =
     (w = Inr True,
      c\<lparr>image_counter := image_counter c + 1,
        files := (if w = Inr True
                  then (files c)(os_path_join (local_save_dir c)
                                   (gen_filename (image_counter c + 1) now) \<mapsto> fr)
                  else files c),
        events := events c @
          [Acquire, CopyFrame, Release, Now,
           ImWrite (os_path_join (local_save_dir c) (gen_filename (image_counter c + 1) now)),
           Print (case w of
                    Inl e \<Rightarrow> ErrorSavingLocal e
                  | Inr ok \<Rightarrow>
                      if ok then ImageSavedLocally (os_path_join (local_save_dir c)
                                   (gen_filename (image_counter c + 1) now))
                      else FailedToSaveImage (os_path_join (local_save_dir c)
                                   (gen_filename (image_counter c + 1) now)))]\<rparr>)"
  by (cases w)
    (auto simp: save_image_local_def save_image_local_try_def imwrite_def emit_def Let_def)

text \<open>
  Claim C6. Without a published frame the local save returns \<open>False\<close> and does nothing but
  take the lock, print and release the lock: no file is written. With a frame, the copy is
  made between taking and releasing the lock, and the clock is read (when the
  name is generated) and the file write attempted only after the release.
\<close>

theorem save_image_local_lock_before_io:
  "(current_frame c = None \<longrightarrow>
      save_image_local filename now w c =
        (False, c\<lparr>events := events c @ [Acquire, Print NoFrameAvailable, Release]\<rparr>)) \<and>
   (current_frame c \<noteq> None \<longrightarrow>
      (\<exists>m. events (snd (save_image_local filename now w c)) =
         events c @ [Acquire, CopyFrame, Release] @
         (case filename of None \<Rightarrow> [Now] | Some f \<Rightarrow> []) @
         [ImWrite (os_path_join (local_save_dir c)
            (case filename of None \<Rightarrow> gen_filename (image_counter c + 1) now | Some f \<Rightarrow> f)),
          Print m]))"
proof (cases "current_frame c")
  case None
  then show ?thesis by (simp add: save_image_local_no_frame)
next
  case (Some fr)
  then show ?thesis
    by (cases filename) (simp_all add: save_image_local_auto save_image_local_explicit)
qed

theorem save_image_local_lock_before_io_witness:
  "save_image_local None
     \<lparr>year = 2024, month = 1, day = 2, hour = 3, minute = 4, second = 5,
       microsecond = 123456\<rparr>
     (Inr True) (init_client [] :: unit client) =
     (False, (init_client [])\<lparr>events := [Acquire, Print NoFrameAvailable, Release]\<rparr>) \<and>
   (\<exists>m. events (snd (save_image_local (Some ''a.jpg'')
            \<lparr>year = 2024, month = 1, day = 2, hour = 3, minute = 4, second = 5,
       microsecond = 123456\<rparr>
            (Inr True) ((init_client [] :: unit client)\<lparr>current_frame := Some ()\<rparr>))) =
      [Acquire, CopyFrame, Release, ImWrite ''ball_dataset_local/a.jpg'', Print m])"
  using save_image_local_lock_before_io
      [of "(init_client [] :: unit client)" None
        "\<lparr>year = 2024, month = 1, day = 2, hour = 3, minute = 4, second = 5,
       microsecond = 123456\<rparr>" "Inr True"]
    save_image_local_lock_before_io
      [of "(init_client [] :: unit client)\<lparr>current_frame := Some ()\<rparr>" "Some ''a.jpg''"
        "\<lparr>year = 2024, month = 1, day = 2, hour = 3, minute = 4, second = 5,
       microsecond = 123456\<rparr>" "Inr True"]
  by (simp add: init_client_def os_path_join_def startswith_def)

text \<open>
  Claim C7. Both save methods return a boolean whatever the command socket and the file
  write do: the result is \<open>True\<close> exactly when the \<^verbatim>\<open>try\<close> body returned \<open>True\<close>. An
  exception of the socket, an exception of the write and a write that returns \<open>False\<close> all
  give \<open>False\<close>, with the matching message printed last.
\<close>

theorem saves_return_bool_on_failure:
  "fst (save_image_remote filename reply c) =
     (fst (save_image_remote_try filename reply c) = Inr True) \<and>
   fst (save_image_local filename now w c) =
     (fst (save_image_local_try filename now w c) = Inr True) \<and>
   save_image_remote filename (Inl e) c =
     (False, emit (Print (ErrorSavingRemote e)) (emit (SendCommand (save_command filename)) c)) \<and>
   (current_frame c \<noteq> None \<longrightarrow>
      fst (save_image_local filename now (Inl e) c) = False \<and>
      last (events (snd (save_image_local filename now (Inl e) c))) = Print (ErrorSavingLocal e) \<and>
      fst (save_image_local filename now (Inr False) c) = False \<and>
      (\<exists>p. last (events (snd (save_image_local filename now (Inr False) c))) =
         Print (FailedToSaveImage p)))"
proof -
  have 1: "fst (save_image_remote filename reply c) =
     (fst (save_image_remote_try filename reply c) = Inr True)"
    by (cases "save_image_remote_try filename reply c")
      (auto simp: save_image_remote_def split: sum.splits)
  have 2: "fst (save_image_local filename now w c) =
     (fst (save_image_local_try filename now w c) = Inr True)"
    by (cases "save_image_local_try filename now w c")
      (auto simp: save_image_local_def split: sum.splits)
  have 3: "current_frame c \<noteq> None \<longrightarrow>
      fst (save_image_local filename now (Inl e) c) = False \<and>
      last (events (snd (save_image_local filename now (Inl e) c))) = Print (ErrorSavingLocal e) \<and>
      fst (save_image_local filename now (Inr False) c) = False \<and>
      (\<exists>p. last (events (snd (save_image_local filename now (Inr False) c))) =
         Print (FailedToSaveImage p))"
    by (cases filename) (auto simp: save_image_local_auto save_image_local_explicit)
  from 1 2 3 show ?thesis by (simp add: save_image_remote_exception)
qed

theorem saves_return_bool_on_failure_witness:
  "save_image_remote None (Inl (OtherException ''timed out'')) (init_client [] :: unit client) =
     (False, emit (Print (ErrorSavingRemote (OtherException ''timed out'')))
               (emit (SendCommand ''SAVE'') (init_client []))) \<and>
   fst (save_image_local (Some ''a.jpg'')
          \<lparr>year = 2024, month = 1, day = 2, hour = 3, minute = 4, second = 5,
       microsecond = 123456\<rparr>
          (Inl (OtherException ''disk'')) ((init_client [] :: unit client)\<lparr>current_frame := Some ()\<rparr>)) = False \<and>
   last (events (snd (save_image_local (Some ''a.jpg'')
          \<lparr>year = 2024, month = 1, day = 2, hour = 3, minute = 4, second = 5,
       microsecond = 123456\<rparr>
          (Inl (OtherException ''disk'')) ((init_client [] :: unit client)\<lparr>current_frame := Some ()\<rparr>)))) =
     Print (ErrorSavingLocal (OtherException ''disk''))"
  using saves_return_bool_on_failure
    [of "Some ''a.jpg''" "Inl (OtherException ''timed out'')" "(init_client [] :: unit client)\<lparr>current_frame := Some ()\<rparr>"
        "\<lparr>year = 2024, month = 1, day = 2, hour = 3, minute = 4, second = 5,
       microsecond = 123456\<rparr>" "Inr True"
        "OtherException ''disk''"]
    saves_return_bool_on_failure
    [of None "Inl (OtherException ''timed out'')" "(init_client [] :: unit client)"
        "\<lparr>year = 2024, month = 1, day = 2, hour = 3, minute = 4, second = 5,
       microsecond = 123456\<rparr>" "Inr True"
        "OtherException ''timed out''"]
  by (simp add: init_client_def save_command_def)

text \<open>
  Claim C10. The local save leaves the counter alone when it is given a file name, and when
  no frame is available. With no file name and a frame, it adds exactly one, whatever the write
  then does, and the write is attempted on the name made from the incremented counter.
\<close>

theorem save_image_local_counter:
  "image_counter (snd (save_image_local filename now w c)) =
     (if filename = None \<and> current_frame c \<noteq> None then image_counter c + 1
      else image_counter c) \<and>
   (filename = None \<and> current_frame c \<noteq> None \<longrightarrow>
      ImWrite (os_path_join (local_save_dir c) (gen_filename (image_counter c + 1) now))
        \<in> set (events (snd (save_image_local filename now w c))))"
proof (cases "current_frame c")
  case None
  then show ?thesis by (simp add: save_image_local_no_frame)
next
  case (Some fr)
  then show ?thesis
    by (cases filename) (simp_all add: save_image_local_auto save_image_local_explicit)
qed

theorem save_image_local_counter_witness:
  "image_counter (snd (save_image_local None
      \<lparr>year = 2024, month = 1, day = 2, hour = 3, minute = 4, second = 5,
       microsecond = 123456\<rparr>
      (Inl (OtherException ''disk'')) ((init_client [] :: unit client)\<lparr>current_frame := Some ()\<rparr>))) = 1 \<and>
   image_counter (snd (save_image_local (Some ''a.jpg'')
      \<lparr>year = 2024, month = 1, day = 2, hour = 3, minute = 4, second = 5,
       microsecond = 123456\<rparr>
      (Inr True) ((init_client [] :: unit client)\<lparr>current_frame := Some ()\<rparr>))) = 0 \<and>
   ImWrite (os_path_join ''ball_dataset_local'' (gen_filename 1
      \<lparr>year = 2024, month = 1, day = 2, hour = 3, minute = 4, second = 5,
       microsecond = 123456\<rparr>))
     \<in> set (events (snd (save_image_local None
          \<lparr>year = 2024, month = 1, day = 2, hour = 3, minute = 4, second = 5,
       microsecond = 123456\<rparr>
          (Inl (OtherException ''disk'')) ((init_client [] :: unit client)\<lparr>current_frame := Some ()\<rparr>))))"
  using save_image_local_counter
      [of None
        "\<lparr>year = 2024, month = 1, day = 2, hour = 3, minute = 4, second = 5,
       microsecond = 123456\<rparr>"
        "Inl (OtherException ''disk'')" "(init_client [] :: unit client)\<lparr>current_frame := Some ()\<rparr>"]
    save_image_local_counter
      [of "Some ''a.jpg''"
        "\<lparr>year = 2024, month = 1, day = 2, hour = 3, minute = 4, second = 5,
       microsecond = 123456\<rparr>"
        "Inr True" "(init_client [] :: unit client)\<lparr>current_frame := Some ()\<rparr>"]
  by (simp add: init_client_def)

text \<open>
  Claim C9. Two local saves with the same explicit file name, whatever the frames and the
  outcomes of the writes: both writes go to the same path, at most that one file is new
  afterwards, it holds the frame of the last successful write, and the counter is untouched.
\<close>

theorem save_image_local_same_file:
  "let p = os_path_join (local_save_dir c) f;
       c1 = snd (save_image_local (Some f) now1 w1 (c\<lparr>current_frame := Some fr1\<rparr>));
       c2 = snd (save_image_local (Some f) now2 w2 (c1\<lparr>current_frame := Some fr2\<rparr>))
   in [q. ImWrite q \<leftarrow> events c2] = [q. ImWrite q \<leftarrow> events c] @ [p, p] \<and>
      dom (files c2) \<subseteq> insert p (dom (files c)) \<and>
      image_counter c2 = image_counter c \<and>
      (w2 = Inr True \<longrightarrow> files c2 = (files c)(p \<mapsto> fr2)) \<and>
      (w2 \<noteq> Inr True \<longrightarrow> w1 = Inr True \<longrightarrow> files c2 = (files c)(p \<mapsto> fr1)) \<and>
      (w1 = Inr True \<longrightarrow> w2 = Inr True \<longrightarrow> fr1 = fr2 \<longrightarrow> files c2 = files c1)"
  unfolding Let_def
  by (auto simp: save_image_local_explicit split: if_splits)

theorem save_image_local_same_file_witness:
  "let c = init_client [] :: nat client;
       c1 = snd (save_image_local (Some ''a.jpg'')
         \<lparr>year = 2024, month = 1, day = 2, hour = 3, minute = 4, second = 5,
       microsecond = 123456\<rparr>
         (Inr True) (c\<lparr>current_frame := Some 1\<rparr>));
       c2 = snd (save_image_local (Some ''a.jpg'')
         \<lparr>year = 2024, month = 1, day = 2, hour = 3, minute = 4, second = 6,
       microsecond = 654321\<rparr>
         (Inr True) (c1\<lparr>current_frame := Some 2\<rparr>))
   in [q. ImWrite q \<leftarrow> events c2] = [''ball_dataset_local/a.jpg'', ''ball_dataset_local/a.jpg''] \<and>
      files c2 = [''ball_dataset_local/a.jpg'' \<mapsto> 2] \<and> image_counter c2 = 0"
  using save_image_local_same_file
    [of "init_client [] :: nat client" "''a.jpg''"
      "\<lparr>year = 2024, month = 1, day = 2, hour = 3, minute = 4, second = 5,
       microsecond = 123456\<rparr>" "Inr True" 1
      "\<lparr>year = 2024, month = 1, day = 2, hour = 3, minute = 4, second = 6,
       microsecond = 654321\<rparr>" "Inr True" 2]
  by (simp add: Let_def init_client_def os_path_join_def startswith_def)

subsection \<open>Generated file names\<close>

lemma length_zfill: "length (zfill w s) = max w (length s)"
  by (simp add: zfill_def)

lemma dec_nonempty: "dec n \<noteq> []"
  by (subst dec.simps) simp

lemma zfill_dec_Suc:
  "1 \<le> k \<Longrightarrow> zfill (Suc k) (dec n) = zfill k (dec (n div 10)) @ [''0123456789'' ! (n mod 10)]"
proof (cases "n < 10")
  case True
  assume k: "1 \<le> k"
  from True have d: "dec n = [''0123456789'' ! n]" by (subst dec.simps) simp
  from True have z: "dec (n div 10) = ''0''" by (subst dec.simps) simp
  from k obtain j where j: "k = Suc j" by (cases k) auto
  from True d z show ?thesis by (simp add: zfill_def j replicate_append_same)
next
  case False
  then have "dec n = dec (n div 10) @ [''0123456789'' ! (n mod 10)]"
    by (subst dec.simps) simp
  then show ?thesis by (simp add: zfill_def)
qed

lemma length_dec: "1 \<le> k \<Longrightarrow> n < 10 ^ k \<Longrightarrow> length (dec n) \<le> k"
proof (induction n arbitrary: k rule: dec.induct)
  case (1 n)
  show ?case
  proof (cases "n < 10")
    case True
    then have "dec n = [''0123456789'' ! n]" by (subst dec.simps) simp
    with "1.prems" show ?thesis by simp
  next
    case False
    then have d: "dec n = dec (n div 10) @ [''0123456789'' ! (n mod 10)]"
      by (subst dec.simps) simp
    from "1.prems" obtain j where kj: "k = Suc j" by (cases k) auto
    have "j \<noteq> 0"
    proof
      assume "j = 0"
      with kj "1.prems" False show False by simp
    qed
    with kj have j: "k = Suc j" "1 \<le> j" by simp_all
    from "1.prems" kj have "n < 10 ^ j * 10" by simp
    then have "n div 10 < 10 ^ j" by (rule less_mult_imp_div_less)
    from "1.IH" [OF False j(2) this] d j show ?thesis by simp
  qed
qed

lemma set_dec: "set (dec n) \<subseteq> set ''0123456789''"
proof (induction n rule: dec.induct)
  case (1 n)
  have m: "''0123456789'' ! (n mod 10) \<in> set ''0123456789''"
    by (rule nth_mem) simp
  show ?case
  proof (cases "n < 10")
    case True
    then have "dec n = [''0123456789'' ! (n mod 10)]" by (subst dec.simps) simp
    with m show ?thesis by simp
  next
    case False
    then have d: "dec n = dec (n div 10) @ [''0123456789'' ! (n mod 10)]"
      by (subst dec.simps) simp
    from "1.IH" [OF False] m d show ?thesis by simp
  qed
qed

lemma set_zfill_dec: "set (zfill w (dec n)) \<subseteq> set ''0123456789''"
  using set_dec [of n] by (auto simp: zfill_def)

lemma zfill6_millis:
  "zfill 6 (dec us) =
     zfill 3 (dec (us div 1000)) @
     [''0123456789'' ! (us div 100 mod 10), ''0123456789'' ! (us div 10 mod 10),
      ''0123456789'' ! (us mod 10)]"
proof -
  have s6: "Suc 5 = 6" and s5: "Suc 4 = 5" and s4: "Suc 3 = 4" by simp_all
  have d2: "us div 10 div 10 = us div 100"
    using div_mult2_eq [of us 10 10] by simp
  have d3: "us div 100 div 10 = us div 1000"
    using div_mult2_eq [of us 100 10] by simp
  have a: "zfill 6 (dec us) = zfill 5 (dec (us div 10)) @ [''0123456789'' ! (us mod 10)]"
    using zfill_dec_Suc [of 5 us] by (simp only: s6)
  have b: "zfill 5 (dec (us div 10)) =
           zfill 4 (dec (us div 100)) @ [''0123456789'' ! (us div 10 mod 10)]"
    using zfill_dec_Suc [of 4 "us div 10"] by (simp only: s5 d2)
  have c: "zfill 4 (dec (us div 100)) =
           zfill 3 (dec (us div 1000)) @ [''0123456789'' ! (us div 100 mod 10)]"
    using zfill_dec_Suc [of 3 "us div 100"] by (simp only: s4 d3)
  show ?thesis by (simp only: a b c append_assoc append_Cons append_Nil)
qed

lemma length_zfill3_millis:
  assumes "us < 1000000"
  shows "length (zfill 3 (dec (us div 1000))) = 3"
proof -
  from assms have "us div 1000 < 1000" by (simp add: less_mult_imp_div_less)
  then have lt: "us div 1000 < 10 ^ 3" by simp
  have "(1::nat) \<le> 3" by simp
  from length_dec [OF this lt] have "length (dec (us div 1000)) \<le> 3" .
  then show ?thesis unfolding length_zfill by linarith
qed

lemma timestamp_millis:
  assumes "microsecond t < 1000000"
  shows "timestamp t =
     zfill 4 (dec (year t)) @ zfill 2 (dec (month t)) @ zfill 2 (dec (day t)) @ ''_'' @
     zfill 2 (dec (hour t)) @ zfill 2 (dec (minute t)) @ zfill 2 (dec (second t)) @ ''_'' @
     zfill 3 (dec (microsecond t div 1000))"
proof -
  let ?A = "zfill 4 (dec (year t)) @ zfill 2 (dec (month t)) @ zfill 2 (dec (day t)) @ ''_'' @
     zfill 2 (dec (hour t)) @ zfill 2 (dec (minute t)) @ zfill 2 (dec (second t)) @ ''_'' @
     zfill 3 (dec (microsecond t div 1000))"
  let ?B = "[''0123456789'' ! (microsecond t div 100 mod 10),
            ''0123456789'' ! (microsecond t div 10 mod 10),
            ''0123456789'' ! (microsecond t mod 10)]"
  have "strftime t = ?A @ ?B"
    by (simp add: strftime_def zfill6_millis)
  moreover have "take (length (?A @ ?B) - 3) (?A @ ?B) = ?A"
    by simp
  ultimately show ?thesis by (simp only: timestamp_def Let_def)
qed

lemma os_path_join_gen_filename:
  "os_path_join ''ball_dataset_local'' (gen_filename n t) =
   ''ball_dataset_local/'' @ gen_filename n t"
  by (simp add: os_path_join_def gen_filename_def startswith_def)

lemma length_zfill_dec: "1 \<le> k \<Longrightarrow> n < 10 ^ k \<Longrightarrow> length (zfill k (dec n)) = k"
  using length_dec [of k n] unfolding length_zfill by linarith

lemma dec_digit: "n < 10 \<Longrightarrow> dec n = [''0123456789'' ! n]"
  by (subst dec.simps) simp

lemma dec_step: "10 \<le> n \<Longrightarrow> dec n = dec (n div 10) @ [''0123456789'' ! (n mod 10)]"
  by (subst dec.simps) simp

lemma zeros_unfold: "replicate (numeral w) c = c # replicate (numeral w - 1) c"
  by (simp add: numeral_eq_Suc)

lemmas filename_eval =
  gen_filename_def timestamp_def strftime_def zfill_def dec_step dec_digit zeros_unfold
  os_path_join_def startswith_def

text \<open>
  Claim C8, as the code has it. A local save without a file name writes to
  \<^verbatim>\<open>ball_dataset_local/ball_dataset_<sequence>_<YYYYMMDD>_<HHMMSS>_<mmm>.jpg\<close>: the sequence
  number is the incremented counter in decimal, padded with zeros to at least four digits
  (exactly four below 10000), and the slice \<^verbatim>\<open>[:-3]\<close> cuts the six microsecond digits down
  to the three digits of the millisecond.
\<close>
theorem auto_filename_format:
  assumes us: "microsecond now < 1000000"
    and fr: "current_frame c = Some fr"
    and dir: "local_save_dir c = ''ball_dataset_local''"
  shows "(\<exists>m. events (snd (save_image_local None now w c)) =
            events c @
            [Acquire, CopyFrame, Release, Now,
             ImWrite (''ball_dataset_local/ball_dataset_'' @
                      zfill 4 (dec (image_counter c + 1)) @ ''_'' @
                      zfill 4 (dec (year now)) @ zfill 2 (dec (month now)) @
                      zfill 2 (dec (day now)) @ ''_'' @
                      zfill 2 (dec (hour now)) @ zfill 2 (dec (minute now)) @
                      zfill 2 (dec (second now)) @ ''_'' @
                      zfill 3 (dec (microsecond now div 1000)) @ ''.jpg''),
             Print m]) \<and>
         length (zfill 3 (dec (microsecond now div 1000))) = 3 \<and>
         set (zfill 4 (dec (image_counter c + 1))) \<subseteq> set ''0123456789'' \<and>
         4 \<le> length (zfill 4 (dec (image_counter c + 1))) \<and>
         (image_counter c + 1 < 10000 \<longrightarrow> length (zfill 4 (dec (image_counter c + 1))) = 4) \<and>
         (year now < 10000 \<and> month now < 100 \<and> day now < 100 \<and> hour now < 100 \<and>
          minute now < 100 \<and> second now < 100 \<longrightarrow> length (timestamp now) = 19)"
proof -
  have name: "os_path_join (local_save_dir c) (gen_filename (image_counter c + 1) now) =
      ''ball_dataset_local/ball_dataset_'' @
      zfill 4 (dec (image_counter c + 1)) @ ''_'' @
      zfill 4 (dec (year now)) @ zfill 2 (dec (month now)) @
      zfill 2 (dec (day now)) @ ''_'' @
      zfill 2 (dec (hour now)) @ zfill 2 (dec (minute now)) @
      zfill 2 (dec (second now)) @ ''_'' @
      zfill 3 (dec (microsecond now div 1000)) @ ''.jpg''"
    unfolding dir os_path_join_gen_filename
    by (simp add: gen_filename_def timestamp_millis [OF us])
  have ev: "\<exists>m. events (snd (save_image_local None now w c)) =
      events c @ [Acquire, CopyFrame, Release, Now,
        ImWrite (os_path_join (local_save_dir c) (gen_filename (image_counter c + 1) now)),
        Print m]"
    by (simp add: save_image_local_auto [OF fr])
  have ms: "length (zfill 3 (dec (microsecond now div 1000))) = 3"
    by (rule length_zfill3_millis [OF us])
  have seq: "4 \<le> length (zfill 4 (dec (image_counter c + 1)))"
    by (simp add: length_zfill)
  have seq4: "image_counter c + 1 < 10000 \<longrightarrow> length (zfill 4 (dec (image_counter c + 1))) = 4"
    using length_zfill_dec [of 4 "image_counter c + 1"] by simp
  have stamp: "year now < 10000 \<and> month now < 100 \<and> day now < 100 \<and> hour now < 100 \<and>
          minute now < 100 \<and> second now < 100 \<longrightarrow> length (timestamp now) = 19"
    using length_zfill_dec [of 4 "year now"] length_zfill_dec [of 2 "month now"]
      length_zfill_dec [of 2 "day now"] length_zfill_dec [of 2 "hour now"]
      length_zfill_dec [of 2 "minute now"] length_zfill_dec [of 2 "second now"] ms
    by (simp add: timestamp_millis [OF us])
  from ev name ms seq seq4 stamp set_zfill_dec [of 4 "image_counter c + 1"]
  show ?thesis by (simp only: simp_thms)
qed

theorem auto_filename_format_witness:
  "microsecond \<lparr>year = 2024, month = 1, day = 2, hour = 3, minute = 4, second = 5,
                 microsecond = 123456\<rparr> < 1000000 \<and>
   (\<exists>m. events (snd (save_image_local None
            \<lparr>year = 2024, month = 1, day = 2, hour = 3, minute = 4, second = 5,
             microsecond = 123456\<rparr>
            (Inr True)
            ((init_client [] :: unit client)\<lparr>current_frame := Some (), image_counter := 41\<rparr>))) =
      [Acquire, CopyFrame, Release, Now,
       ImWrite ''ball_dataset_local/ball_dataset_0042_20240102_030405_123.jpg'', Print m])"
  using auto_filename_format
    [of "\<lparr>year = 2024, month = 1, day = 2, hour = 3, minute = 4, second = 5,
          microsecond = 123456\<rparr>"
        "(init_client [] :: unit client)\<lparr>current_frame := Some (), image_counter := 41\<rparr>"
        "()" "Inr True"]
  by (simp add: init_client_def zfill_def dec_step dec_digit zeros_unfold)

text \<open>
  The claim as it was stated fails twice: from counter 9999 the sequence number has five
  digits, and two instants 543 microseconds apart give the same file name, so the timestamp
  does not have microsecond precision.
\<close>

theorem auto_filename_counterexample:
  "ImWrite ''ball_dataset_local/ball_dataset_10000_20240102_030405_123.jpg''
     \<in> set (events (snd (save_image_local None
         \<lparr>year = 2024, month = 1, day = 2, hour = 3, minute = 4, second = 5,
          microsecond = 123456\<rparr>
         (Inr True)
         ((init_client [] :: unit client)\<lparr>current_frame := Some (), image_counter := 9999\<rparr>)))) \<and>
   ImWrite ''ball_dataset_local/ball_dataset_10000_20240102_030405_123.jpg''
     \<in> set (events (snd (save_image_local None
         \<lparr>year = 2024, month = 1, day = 2, hour = 3, minute = 4, second = 5,
          microsecond = 123999\<rparr>
         (Inr True)
         ((init_client [] :: unit client)\<lparr>current_frame := Some (), image_counter := 9999\<rparr>))))"
  by (simp add: save_image_local_auto init_client_def filename_eval)

subsection \<open>The save counter\<close>

lemma display_fields:
  "image_counter (display c) = image_counter c"
  "running (display c) = running c"
  "current_frame (display c) = current_frame c"
  by (simp_all add: display_def emit_def Let_def split: option.splits)

lemma handle_key_remote_ok:
  assumes key: "k AND 0xFF = 115 \<or> k AND 0xFF = 32"
    and reply: "env_reply e = Inr r" and ok: "startswith r ''SAVED:''"
  shows "handle_key k e c =
    (True, (emit (Print (ImageSavedOnGO2 (drop 6 r))) (emit (SendCommand ''SAVE'') c))
             \<lparr>image_counter := image_counter c + 1\<rparr>)"
  using key ok
  by (auto simp: handle_key_def Let_def reply save_image_remote_response save_command_def emit_def)

lemma handle_key_local_frame:
  assumes key: "k AND 0xFF = 108" and fr: "current_frame c = Some fr"
  shows "fst (handle_key k e c) \<and>
         image_counter (snd (handle_key k e c)) = image_counter c + 1 \<and>
         running (snd (handle_key k e c)) = running c \<and>
         current_frame (snd (handle_key k e c)) = current_frame c"
  using key
  by (simp add: handle_key_def Let_def save_image_local_auto [OF fr] emit_def fr)

lemma handle_key_both_ok:
  assumes key: "k AND 0xFF = 98" and fr: "current_frame c = Some fr"
    and reply: "env_reply e = Inr r" and ok: "startswith r ''SAVED:''"
    and wr: "env_write e = Inr True"
  shows "fst (handle_key k e c) \<and>
         image_counter (snd (handle_key k e c)) = image_counter c + 2 \<and>
         running (snd (handle_key k e c)) = running c \<and>
         current_frame (snd (handle_key k e c)) = current_frame c"
  using key ok
  by (simp add: handle_key_def Let_def reply wr save_image_remote_response
      save_image_local_explicit [where fr = fr] emit_def fr)

lemma main_loop_remote:
  assumes "running c"
    and "\<forall>(k, e) \<in> set ks. (k AND 0xFF = 115 \<or> k AND 0xFF = 32) \<and>
           (\<exists>r. env_reply e = Inr r \<and> startswith r ''SAVED:'')"
  shows "image_counter (main_loop ks c) = image_counter c + length ks"
  using assms
proof (induction ks arbitrary: c)
  case Nil
  then show ?case by simp
next
  case (Cons a ks)
  obtain k e where a: "a = (k, e)" by (cases a)
  from Cons.prems(2) a obtain r where key: "k AND 0xFF = 115 \<or> k AND 0xFF = 32"
    and reply: "env_reply e = Inr r" and ok: "startswith r ''SAVED:''"
    by auto
  obtain b c' where hk0: "handle_key k e (display c) = (b, c')"
    by (cases "handle_key k e (display c)")
  with handle_key_remote_ok [OF key reply ok, of "display c"]
  have hk: "handle_key k e (display c) = (True, c')"
    and cnt: "image_counter c' = image_counter c + 1"
    and run: "running c'"
    using Cons.prems(1) by (auto simp: emit_def display_fields)
  from Cons.prems(2) have rest: "\<forall>(k, e) \<in> set ks. (k AND 0xFF = 115 \<or> k AND 0xFF = 32) \<and>
           (\<exists>r. env_reply e = Inr r \<and> startswith r ''SAVED:'')" by simp
  from Cons.IH [OF run rest] cnt
  have "image_counter (main_loop ks c') = image_counter c + 1 + length ks" by simp
  moreover from hk Cons.prems(1) a have "main_loop (a # ks) c = main_loop ks c'"
    by simp
  ultimately show ?case by simp
qed

lemma main_loop_local:
  assumes "running c" and "current_frame c \<noteq> None"
    and "\<forall>(k, e) \<in> set ks. k AND 0xFF = 108"
  shows "image_counter (main_loop ks c) = image_counter c + length ks"
  using assms
proof (induction ks arbitrary: c)
  case Nil
  then show ?case by simp
next
  case (Cons a ks)
  obtain k e where a: "a = (k, e)" by (cases a)
  from Cons.prems(3) a have key: "k AND 0xFF = 108" by auto
  from Cons.prems(2) obtain fr where fr: "current_frame (display c) = Some fr"
    by (auto simp: display_fields)
  obtain b c' where hk0: "handle_key k e (display c) = (b, c')"
    by (cases "handle_key k e (display c)")
  with handle_key_local_frame [OF key fr, of e]
  have hk: "handle_key k e (display c) = (True, c')"
    and cnt: "image_counter c' = image_counter c + 1"
    and run: "running c'" and fr': "current_frame c' \<noteq> None"
    using Cons.prems(1) fr by (simp_all add: display_fields)
  from Cons.prems(3) have rest: "\<forall>(k, e) \<in> set ks. k AND 0xFF = 108" by simp
  from Cons.IH [OF run fr' rest] cnt
  have "image_counter (main_loop ks c') = image_counter c + 1 + length ks" by simp
  moreover from hk Cons.prems(1) a have "main_loop (a # ks) c = main_loop ks c'"
    by simp
  ultimately show ?case by simp
qed

lemma main_loop_both:
  assumes "running c" and "current_frame c \<noteq> None"
    and "\<forall>(k, e) \<in> set ks. k AND 0xFF = 98 \<and> env_write e = Inr True \<and>
           (\<exists>r. env_reply e = Inr r \<and> startswith r ''SAVED:'')"
  shows "image_counter (main_loop ks c) = image_counter c + 2 * length ks"
  using assms
proof (induction ks arbitrary: c)
  case Nil
  then show ?case by simp
next
  case (Cons a ks)
  obtain k e where a: "a = (k, e)" by (cases a)
  from Cons.prems(3) a obtain r where key: "k AND 0xFF = 98"
    and reply: "env_reply e = Inr r" and ok: "startswith r ''SAVED:''"
    and wr: "env_write e = Inr True"
    by auto
  from Cons.prems(2) obtain fr where fr: "current_frame (display c) = Some fr"
    by (auto simp: display_fields)
  obtain b c' where hk0: "handle_key k e (display c) = (b, c')"
    by (cases "handle_key k e (display c)")
  with handle_key_both_ok [OF key fr reply ok wr]
  have hk: "handle_key k e (display c) = (True, c')"
    and cnt: "image_counter c' = image_counter c + 2"
    and run: "running c'" and fr': "current_frame c' \<noteq> None"
    using Cons.prems(1) fr by (simp_all add: display_fields)
  from Cons.prems(3) have rest: "\<forall>(k, e) \<in> set ks. k AND 0xFF = 98 \<and> env_write e = Inr True \<and>
           (\<exists>r. env_reply e = Inr r \<and> startswith r ''SAVED:'')" by simp
  from Cons.IH [OF run fr' rest] cnt
  have "image_counter (main_loop ks c') = image_counter c + 2 + 2 * length ks" by simp
  moreover from hk Cons.prems(1) a have "main_loop (a # ks) c = main_loop ks c'"
    by simp
  ultimately show ?case by simp
qed

text \<open>
  Claim C1, as the code has it. With the client running, \<open>N\<close> remote saves that all succeed
  add \<open>N\<close> to the counter. \<open>N\<close> local saves that all succeed add \<open>N\<close> as well, since each
  local save without a file name increments the counter for its sequence number.
\<close>
theorem counter_after_saves:
  "(running c \<and>
    (\<forall>(k, e) \<in> set ks. (k AND 0xFF = 115 \<or> k AND 0xFF = 32) \<and>
       (\<exists>r. env_reply e = Inr r \<and> startswith r ''SAVED:'')) \<longrightarrow>
    image_counter (main_loop ks c) = image_counter c + length ks) \<and>
   (running c \<and> current_frame c \<noteq> None \<and>
    (\<forall>(k, e) \<in> set ls. k AND 0xFF = 108 \<and> env_write e = Inr True) \<longrightarrow>
    image_counter (main_loop ls c) = image_counter c + length ls)"
proof (intro conjI impI)
  assume "running c \<and>
    (\<forall>(k, e) \<in> set ks. (k AND 0xFF = 115 \<or> k AND 0xFF = 32) \<and>
       (\<exists>r. env_reply e = Inr r \<and> startswith r ''SAVED:''))"
  then show "image_counter (main_loop ks c) = image_counter c + length ks"
    using main_loop_remote [of c ks] by blast
next
  assume a: "running c \<and> current_frame c \<noteq> None \<and>
    (\<forall>(k, e) \<in> set ls. k AND 0xFF = 108 \<and> env_write e = Inr True)"
  then have "\<forall>(k, e) \<in> set ls. k AND 0xFF = 108" by auto
  with a show "image_counter (main_loop ls c) = image_counter c + length ls"
    using main_loop_local [of c ls] by blast
qed

theorem counter_after_saves_witness:
  "image_counter (main_loop
     [(115, \<lparr>env_reply = Inr ''SAVED:/data/img001.jpg'',
         env_now = \<lparr>year = 2024, month = 1, day = 2, hour = 3, minute = 4, second = 5,
                    microsecond = 123456\<rparr>,
         env_write = Inr True\<rparr>),
      (32, \<lparr>env_reply = Inr ''SAVED:/data/img002.jpg'',
         env_now = \<lparr>year = 2024, month = 1, day = 2, hour = 3, minute = 4, second = 6,
                    microsecond = 123456\<rparr>,
         env_write = Inr True\<rparr>),
      (115, \<lparr>env_reply = Inr ''SAVED:/data/img003.jpg'',
         env_now = \<lparr>year = 2024, month = 1, day = 2, hour = 3, minute = 4, second = 7,
                    microsecond = 123456\<rparr>,
         env_write = Inr True\<rparr>)]
     ((init_client [] :: unit client)\<lparr>running := True, current_frame := Some ()\<rparr>)) = 3 \<and>
   image_counter (main_loop
     [(108, \<lparr>env_reply = Inr '''',
         env_now = \<lparr>year = 2024, month = 1, day = 2, hour = 3, minute = 4, second = 5,
                    microsecond = 123456\<rparr>,
         env_write = Inr True\<rparr>),
      (108, \<lparr>env_reply = Inr '''',
         env_now = \<lparr>year = 2024, month = 1, day = 2, hour = 3, minute = 4, second = 6,
                    microsecond = 123456\<rparr>,
         env_write = Inr True\<rparr>),
      (108, \<lparr>env_reply = Inr '''',
         env_now = \<lparr>year = 2024, month = 1, day = 2, hour = 3, minute = 4, second = 7,
                    microsecond = 123456\<rparr>,
         env_write = Inr True\<rparr>)]
     ((init_client [] :: unit client)\<lparr>running := True, current_frame := Some ()\<rparr>)) = 3"
  using counter_after_saves
    [of "(init_client [] :: unit client)\<lparr>running := True, current_frame := Some ()\<rparr>"
      "[(115, \<lparr>env_reply = Inr ''SAVED:/data/img001.jpg'',
         env_now = \<lparr>year = 2024, month = 1, day = 2, hour = 3, minute = 4, second = 5,
                    microsecond = 123456\<rparr>,
         env_write = Inr True\<rparr>),
      (32, \<lparr>env_reply = Inr ''SAVED:/data/img002.jpg'',
         env_now = \<lparr>year = 2024, month = 1, day = 2, hour = 3, minute = 4, second = 6,
                    microsecond = 123456\<rparr>,
         env_write = Inr True\<rparr>),
      (115, \<lparr>env_reply = Inr ''SAVED:/data/img003.jpg'',
         env_now = \<lparr>year = 2024, month = 1, day = 2, hour = 3, minute = 4, second = 7,
                    microsecond = 123456\<rparr>,
         env_write = Inr True\<rparr>)]"
      "[(108, \<lparr>env_reply = Inr '''',
         env_now = \<lparr>year = 2024, month = 1, day = 2, hour = 3, minute = 4, second = 5,
                    microsecond = 123456\<rparr>,
         env_write = Inr True\<rparr>),
      (108, \<lparr>env_reply = Inr '''',
         env_now = \<lparr>year = 2024, month = 1, day = 2, hour = 3, minute = 4, second = 6,
                    microsecond = 123456\<rparr>,
         env_write = Inr True\<rparr>),
      (108, \<lparr>env_reply = Inr '''',
         env_now = \<lparr>year = 2024, month = 1, day = 2, hour = 3, minute = 4, second = 7,
                    microsecond = 123456\<rparr>,
         env_write = Inr True\<rparr>)]"]
  by (simp add: init_client_def startswith_def)

text \<open>
  The claim as it was stated fails: from counter 0, three successful local saves leave the
  counter at 3, not 0, and two combined saves in which both sides succeed leave it at 4.
\<close>

theorem local_saves_counter_counterexample:
  "image_counter ((init_client [] :: unit client)\<lparr>running := True, current_frame := Some ()\<rparr>) = 0 \<and>
   image_counter (main_loop
     [(108, \<lparr>env_reply = Inr ''SAVED:/data/img001.jpg'',
             env_now = \<lparr>year = 2024, month = 1, day = 2, hour = 3, minute = 4, second = 5,
                        microsecond = 123456\<rparr>,
             env_write = Inr True\<rparr>),
      (108, \<lparr>env_reply = Inr ''SAVED:/data/img002.jpg'',
            env_now = \<lparr>year = 2024, month = 1, day = 2, hour = 3, minute = 4, second = 6,
                       microsecond = 123456\<rparr>,
            env_write = Inr True\<rparr>),
      (108, \<lparr>env_reply = Inr ''SAVED:/data/img003.jpg'',
             env_now = \<lparr>year = 2024, month = 1, day = 2, hour = 3, minute = 4, second = 7,
                        microsecond = 123456\<rparr>,
             env_write = Inr True\<rparr>)]
     ((init_client [] :: unit client)\<lparr>running := True, current_frame := Some ()\<rparr>)) = 3 \<and>
   image_counter (main_loop
     [(98, \<lparr>env_reply = Inr ''SAVED:/data/img001.jpg'',
             env_now = \<lparr>year = 2024, month = 1, day = 2, hour = 3, minute = 4, second = 5,
                        microsecond = 123456\<rparr>,
             env_write = Inr True\<rparr>),
      (98, \<lparr>env_reply = Inr ''SAVED:/data/img002.jpg'',
            env_now = \<lparr>year = 2024, month = 1, day = 2, hour = 3, minute = 4, second = 6,
                       microsecond = 123456\<rparr>,
            env_write = Inr True\<rparr>)]
     ((init_client [] :: unit client)\<lparr>running := True, current_frame := Some ()\<rparr>)) = 4"
proof -
  let ?c = "(init_client [] :: unit client)\<lparr>running := True, current_frame := Some ()\<rparr>"
  have c: "running ?c" "current_frame ?c \<noteq> None" "image_counter ?c = 0"
    by (simp_all add: init_client_def)
  show ?thesis
    using main_loop_local [OF c(1,2), where ks = "[(108, \<lparr>env_reply = Inr ''SAVED:/data/img001.jpg'',
             env_now = \<lparr>year = 2024, month = 1, day = 2, hour = 3, minute = 4, second = 5,
                        microsecond = 123456\<rparr>,
             env_write = Inr True\<rparr>),
      (108, \<lparr>env_reply = Inr ''SAVED:/data/img002.jpg'',
            env_now = \<lparr>year = 2024, month = 1, day = 2, hour = 3, minute = 4, second = 6,
                       microsecond = 123456\<rparr>,
            env_write = Inr True\<rparr>),
      (108, \<lparr>env_reply = Inr ''SAVED:/data/img003.jpg'',
             env_now = \<lparr>year = 2024, month = 1, day = 2, hour = 3, minute = 4, second = 7,
                        microsecond = 123456\<rparr>,
             env_write = Inr True\<rparr>)]"]
      main_loop_both [OF c(1,2), where ks = "[(98, \<lparr>env_reply = Inr ''SAVED:/data/img001.jpg'',
             env_now = \<lparr>year = 2024, month = 1, day = 2, hour = 3, minute = 4, second = 5,
                        microsecond = 123456\<rparr>,
             env_write = Inr True\<rparr>),
      (98, \<lparr>env_reply = Inr ''SAVED:/data/img002.jpg'',
            env_now = \<lparr>year = 2024, month = 1, day = 2, hour = 3, minute = 4, second = 6,
                       microsecond = 123456\<rparr>,
            env_write = Inr True\<rparr>)]"] c(3)
    by (simp add: startswith_def)
qed

end
